theory Spec2Isabelle
  imports Complex_Main "HOL-Library.Word"
begin

unbundle bit_operations_syntax

section \<open>Wire codec of package wl (wire.go)\<close>

subsection \<open>Machine types and byte order\<close>

type_synonym byte = "8 word"
type_synonym uint16 = "16 word"
type_synonym uint32 = "32 word"
type_synonym int32 = "32 word"
type_synonym goint = "64 word"

text \<open>
  \<^verbatim>\<open>var byteOrder binary.ByteOrder\<close> is fixed once by \<^verbatim>\<open>init\<close> to the host's order;
  every function below takes it as its first argument.
\<close>

datatype ByteOrder = LittleEndian | BigEndian

text \<open>\<^verbatim>\<open>binary.ByteOrder.Uint32\<close> on the four bytes \<^verbatim>\<open>binary.Read\<close> has read.\<close>

fun Uint32 :: "ByteOrder \<Rightarrow> byte list \<Rightarrow> uint32" where
  "Uint32 LittleEndian [b0, b1, b2, b3] =
     ucast b0 OR push_bit 8 (ucast b1) OR push_bit 16 (ucast b2) OR push_bit 24 (ucast b3)"
| "Uint32 BigEndian [b0, b1, b2, b3] =
     ucast b3 OR push_bit 8 (ucast b2) OR push_bit 16 (ucast b1) OR push_bit 24 (ucast b0)"
| "Uint32 bo bs = 0"

subsection \<open>Errors and panics\<close>

datatype error =
    EOF
  | ErrUnexpectedEOF
  | NotNullTerminated
  | NoMoreFds
  | ConnErr
  | ReadSenderErr error
  | ReadSizeOpErr error
  | CopyDataErr error
  | ParseCmsgErr
  | ParseRightsErr

datatype panic =
    IndexOutOfRange
  | SliceBoundsOutOfRange
  | GrowNegative
  | UnexpectedType

text \<open>What a call of \<^verbatim>\<open>Decode\<close> does: return nil, return an error, or panic.\<close>

datatype outcome = Success | Failure error | Panics panic

subsection \<open>bytes.Reader and the message buffer\<close>

text \<open>
  \<^verbatim>\<open>bytes.Reader\<close>: the slice \<^verbatim>\<open>s\<close> and the read index \<^verbatim>\<open>i\<close>, which starts at 0
  (\<^verbatim>\<open>Reset\<close>) and only grows, by the number of bytes read.
\<close>

record Reader =
  r_s :: "byte list"
  r_i :: nat

text \<open>
  \<^verbatim>\<open>MessageBuffer\<close>; its field \<^verbatim>\<open>size\<close> is \<open>size_mb\<close> here. The descriptors and
  the index are Go \<^verbatim>\<open>int\<close>s; the index never exceeds the length of the list, so it is
  an \<open>int\<close> without wrap-around.
\<close>

record MessageBuffer =
  sender :: uint32
  op :: uint16
  size_mb :: uint16
  data :: Reader
  fds :: "int list"
  fdindex :: int

text \<open>
  \<^verbatim>\<open>io.ReadFull(r, buf)\<close> on a \<^verbatim>\<open>bytes.Reader\<close>, \<open>k\<close> the length of \<^verbatim>\<open>buf\<close>: the bytes
  copied into \<^verbatim>\<open>buf\<close>, the error and the reader afterwards. Nothing is read for an empty
  \<^verbatim>\<open>buf\<close>; an exhausted reader gives \<^verbatim>\<open>io.EOF\<close>; a reader with fewer than \<open>k\<close> bytes
  left is drained and gives \<^verbatim>\<open>io.ErrUnexpectedEOF\<close>.
\<close>

definition ReadFull :: "Reader \<Rightarrow> nat \<Rightarrow> byte list \<times> error option \<times> Reader" where
  "ReadFull r k =
     (let avail = drop (r_i r) (r_s r) in
      if k = 0 then ([], None, r)
      else if avail = [] then ([], Some EOF, r)
      else if length avail < k then
        (avail, Some ErrUnexpectedEOF, r\<lparr>r_i := r_i r + length avail\<rparr>)
      else (take k avail, None, r\<lparr>r_i := r_i r + k\<rparr>))"

text \<open>
  \<^verbatim>\<open>io.CopyN(dst, r, n)\<close> from a \<^verbatim>\<open>bytes.Reader\<close> with \<open>0 \<le> n\<close>: it copies through an
  \<^verbatim>\<open>io.LimitedReader\<close> until \<open>n\<close> bytes are written or the reader is exhausted, and
  reports \<^verbatim>\<open>io.EOF\<close> when fewer than \<open>n\<close> were written.
\<close>

definition CopyN :: "Reader \<Rightarrow> nat \<Rightarrow> byte list \<times> error option \<times> Reader" where
  "CopyN r n =
     (let avail = drop (r_i r) (r_s r); m = min n (length avail) in
      (take m avail, if m = n then None else Some EOF, r\<lparr>r_i := r_i r + m\<rparr>))"

text \<open>
  \<^verbatim>\<open>read(&buf.data, &x)\<close> for a 4-byte \<^verbatim>\<open>x\<close>: \<^verbatim>\<open>binary.Read\<close> fills a 4-byte buffer with
  \<^verbatim>\<open>io.ReadFull\<close> and decodes it in the host byte order.
\<close>

definition read32 :: "ByteOrder \<Rightarrow> Reader \<Rightarrow> (error + uint32) \<times> Reader" where
  "read32 bo r =
     (case ReadFull r 4 of
        (bs, Some e, r') \<Rightarrow> (Inl e, r')
      | (bs, None, r') \<Rightarrow> (Inr (Uint32 bo bs), r'))"

subsection \<open>Values behind the pointer passed to Decode\<close>

datatype gotype = TInt32 | TUint32 | TFixed | TString | TNewID | TFile | TSlice gotype

text \<open>
  The variable \<^verbatim>\<open>val\<close> points to, by its Go type. A \<^verbatim>\<open>[]byte\<close> is its elements and
  the spare bytes of its backing array between length and capacity. An \<^verbatim>\<open>*os.File\<close> is
  nil (\<open>None\<close>) or a file on a descriptor. A slice of another type carries its element
  type.
\<close>

datatype val =
    VInt32 int32
  | VUint32 uint32
  | VFixed int32
  | VString "byte list"
  | VBytes "byte list" "byte list"
  | VFile "int option"
  | VNewID "byte list" uint32
  | VSlice gotype "val list"

text \<open>\<^verbatim>\<open>os.NewFile\<close>: nil for a negative descriptor.\<close>

definition NewFile :: "int \<Rightarrow> int option" where
  "NewFile fd = (if fd < 0 then None else Some fd)"

subsection \<open>Decode\<close>

text \<open>
  \<^verbatim>\<open>Decode(buf, val)\<close>: the outcome, the buffer afterwards and the variable afterwards.
  The cases follow the type switch; every type without a case reaches \<^verbatim>\<open>default\<close>.
  \<^verbatim>\<open>slices.Grow\<close> panics on a negative count, which is what the byte-slice case passes
  whenever it calls it. Indexing and slicing (\<^verbatim>\<open>s[:n]\<close> is checked against the
  capacity) panic out of range. The lengths are \<^verbatim>\<open>uint32\<close>: \<open>len + pad\<close> and
  \<open>len - 1\<close> wrap around. The memory \<^verbatim>\<open>str.Grow\<close> reserves is not modelled.
\<close>

definition decode_scalar ::
  "ByteOrder \<Rightarrow> MessageBuffer \<Rightarrow> (uint32 \<Rightarrow> val) \<Rightarrow> val \<Rightarrow> outcome \<times> MessageBuffer \<times> val" where
  "decode_scalar bo buf mk old =
     (case read32 bo (data buf) of
        (Inl e, r1) \<Rightarrow> (Failure e, buf\<lparr>data := r1\<rparr>, old)
      | (Inr x, r1) \<Rightarrow> (Success, buf\<lparr>data := r1\<rparr>, mk x))"

definition decode_string :: "ByteOrder \<Rightarrow> MessageBuffer \<Rightarrow> val \<Rightarrow> outcome \<times> MessageBuffer \<times> val" where
  "decode_string bo buf old =
     (case read32 bo (data buf) of
        (Inl e, r1) \<Rightarrow> (Failure e, buf\<lparr>data := r1\<rparr>, old)
      | (Inr len, r1) \<Rightarrow>
          (let pad = len mod 4 in
           case CopyN r1 (unat (len + pad)) of
             (str, Some e, r2) \<Rightarrow> (Failure e, buf\<lparr>data := r2\<rparr>, old)
           | (str, None, r2) \<Rightarrow>
               if length str \<le> unat (len - 1) then (Panics IndexOutOfRange, buf\<lparr>data := r2\<rparr>, old)
               else if str ! unat (len - 1) \<noteq> 0 then
                 (Failure NotNullTerminated, buf\<lparr>data := r2\<rparr>, old)
               else (Success, buf\<lparr>data := r2\<rparr>, VString (take (unat (len - 1)) str))))"

definition decode_bytes ::
  "ByteOrder \<Rightarrow> MessageBuffer \<Rightarrow> byte list \<Rightarrow> byte list \<Rightarrow> outcome \<times> MessageBuffer \<times> val" where
  "decode_bytes bo buf cur spare =
     (case read32 bo (data buf) of
        (Inl e, r1) \<Rightarrow> (Failure e, buf\<lparr>data := r1\<rparr>, VBytes cur spare)
      | (Inr len, r1) \<Rightarrow>
          (let pad = len mod 4 in
           if length cur < unat (len + pad) then
             (Panics GrowNegative, buf\<lparr>data := r1\<rparr>, VBytes cur spare)
           else
             case ReadFull r1 (length cur) of
               (bs, Some e, r2) \<Rightarrow>
                 (Failure e, buf\<lparr>data := r2\<rparr>, VBytes (bs @ drop (length bs) cur) spare)
             | (bs, None, r2) \<Rightarrow>
                 if length bs + length spare < unat len then
                   (Panics SliceBoundsOutOfRange, buf\<lparr>data := r2\<rparr>, VBytes bs spare)
                 else
                   (Success, buf\<lparr>data := r2\<rparr>,
                    VBytes (take (unat len) (bs @ spare)) (drop (unat len) (bs @ spare)))))"

definition decode_file :: "MessageBuffer \<Rightarrow> val \<Rightarrow> outcome \<times> MessageBuffer \<times> val" where
  "decode_file buf old =
     (if int (length (fds buf)) \<le> fdindex buf then (Failure NoMoreFds, buf, old)
      else if fdindex buf < 0 then (Panics IndexOutOfRange, buf, old)
      else (Success, buf\<lparr>fdindex := fdindex buf + 1\<rparr>,
            VFile (NewFile (fds buf ! nat (fdindex buf)))))"

fun Decode :: "ByteOrder \<Rightarrow> MessageBuffer \<Rightarrow> val \<Rightarrow> outcome \<times> MessageBuffer \<times> val" where
  "Decode bo buf (VInt32 x) = decode_scalar bo buf VInt32 (VInt32 x)"
| "Decode bo buf (VUint32 x) = decode_scalar bo buf VUint32 (VUint32 x)"
| "Decode bo buf (VFixed x) = decode_scalar bo buf VFixed (VFixed x)"
| "Decode bo buf (VString x) = decode_string bo buf (VString x)"
| "Decode bo buf (VBytes cur spare) = decode_bytes bo buf cur spare"
| "Decode bo buf (VFile f) = decode_file buf (VFile f)"
| "Decode bo buf v = (Panics UnexpectedType, buf, v)"


subsection \<open>The connection, unixTee and ReadMessage\<close>

text \<open>
  The socket as the framer sees it: the results of the successive \<^verbatim>\<open>ReadMsgUnix\<close> calls
  still to come. \<open>Recv bs ob\<close> is a receive that has the stream bytes \<open>bs\<close> ready
  (a call with a shorter buffer takes a prefix and leaves the rest for the next call; an
  empty \<open>bs\<close> is a receive of 0 bytes with a nil error, which is also what
  \<^verbatim>\<open>ReadMsgUnix\<close> returns once the peer has closed the socket) together with the
  ancillary bytes \<open>ob\<close>; \<open>RecvErr\<close> is a receive that fails. When the list is
  exhausted no receive returns any more, and a read that still waits for bytes does not
  return: that is the value \<open>None\<close>.
\<close>

datatype recv = Recv "byte list" "byte list" | RecvErr

text \<open>
  \<^verbatim>\<open>unixTee.Read(buf)\<close>, \<open>k\<close> the length of \<^verbatim>\<open>buf\<close>: the bytes read, the ancillary
  bytes written to \<^verbatim>\<open>oob\<close>, the error and the connection afterwards.
\<close>

fun tee_Read ::
  "nat \<Rightarrow> recv list \<Rightarrow> (byte list \<times> byte list \<times> error option \<times> recv list) option" where
  "tee_Read k [] = None"
| "tee_Read k (RecvErr # c) = Some ([], [], Some ConnErr, c)"
| "tee_Read k (Recv bs ob # c) =
     Some (take k bs, ob, None, if length bs \<le> k then c else Recv (drop k bs) [] # c)"

text \<open>
  \<^verbatim>\<open>io.ReadFull\<close> over the tee: \<^verbatim>\<open>Read\<close> is called for the bytes still missing until
  the buffer is full or a call fails.
\<close>

function tee_ReadFull ::
  "nat \<Rightarrow> recv list \<Rightarrow> (byte list \<times> byte list \<times> error option \<times> recv list) option" where
  "tee_ReadFull 0 c = Some ([], [], None, c)"
| "tee_ReadFull (Suc k) c =
     (case tee_Read (Suc k) c of
        None \<Rightarrow> None
      | Some (bs, ob, Some e, c') \<Rightarrow> Some (bs, ob, Some e, c')
      | Some (bs, ob, None, c') \<Rightarrow>
          (case tee_ReadFull (Suc k - length bs) c' of
             None \<Rightarrow> None
           | Some (bs', ob', e, c'') \<Rightarrow> Some (bs @ bs', ob @ ob', e, c'')))"
  by pat_completeness auto
termination
proof (relation "measure (\<lambda>(k, c). k + length c)")
  show "wf (measure (\<lambda>(k, c). k + length c))" by simp
next
  fix k :: nat and c :: "recv list" and x2 bs y ob ya z c'
  assume "tee_Read (Suc k) c = Some x2" "(bs, y) = x2" "(ob, ya) = y" "(z, c') = ya" "z = None"
  then have rd: "tee_Read (Suc k) c = Some (bs, ob, None, c')" by simp
  show "((Suc k - length bs, c'), Suc k, c) \<in> measure (\<lambda>(k, c). k + length c)"
  proof (cases c)
    case Nil
    with rd show ?thesis by simp
  next
    case (Cons ev c0)
    show ?thesis
    proof (cases ev)
      case RecvErr
      with Cons rd show ?thesis by simp
    next
      case (Recv b ob0)
      with Cons rd have "bs = take (Suc k) b"
        and "c' = (if length b \<le> Suc k then c0 else Recv (drop (Suc k) b) [] # c0)"
        by simp_all
      with Cons show ?thesis by (auto simp add: min_def)
    qed
  qed
qed

declare tee_ReadFull.simps [simp del]

text \<open>
  \<^verbatim>\<open>io.CopyN(data, r, n)\<close> over the tee into a \<^verbatim>\<open>bytes.Buffer\<close>. The copy reads through
  an \<^verbatim>\<open>io.LimitedReader\<close>, which reports \<^verbatim>\<open>io.EOF\<close> without reading once its count is
  \<open>\<le> 0\<close>; \<^verbatim>\<open>Buffer.ReadFrom\<close> turns that into a nil error. So for \<open>n \<le> 0\<close> nothing is
  read and \<^verbatim>\<open>CopyN\<close> returns \<open>(0, nil)\<close> (for \<open>n < 0\<close> neither of its two checks,
  \<^verbatim>\<open>written == n\<close> and \<^verbatim>\<open>written < n\<close>, holds). For \<open>0 < n\<close> the stream is read, in
  whatever pieces the buffer's free space allows, until \<open>n\<close> bytes are in or a receive
  fails, which on this connection is what \<open>tee_ReadFull\<close> computes.
\<close>

definition tee_CopyN ::
  "int \<Rightarrow> recv list \<Rightarrow> (byte list \<times> byte list \<times> error option \<times> recv list) option" where
  "tee_CopyN n c = (if n \<le> 0 then Some ([], [], None, c) else tee_ReadFull (nat n) c)"

text \<open>
  The parsers of golang.org/x/sys/unix are parameters of \<open>ReadMessage\<close>:
  \<open>psm\<close> is \<^verbatim>\<open>unix.ParseSocketControlMessage\<close> (\<open>None\<close> for an error), \<open>pur\<close> is
  \<^verbatim>\<open>unix.ParseUnixRights\<close>, whose error is \<^verbatim>\<open>EINVAL\<close> or another one.
\<close>

datatype errno = EINVAL | OtherErrno

fun collect_fds :: "('c \<Rightarrow> errno + int list) \<Rightarrow> 'c list \<Rightarrow> int list \<Rightarrow> error + int list" where
  "collect_fds pur [] acc = Inr acc"
| "collect_fds pur (m # ms) acc =
     (case pur m of
        Inl EINVAL \<Rightarrow> collect_fds pur ms acc
      | Inl OtherErrno \<Rightarrow> Inl ParseRightsErr
      | Inr f \<Rightarrow> collect_fds pur ms (acc @ f))"

text \<open>
  \<^verbatim>\<open>ReadMessage(c)\<close>: \<open>None\<close> when it does not return, else the error or the message
  buffer, and the connection afterwards.
\<close>

definition ReadMessage ::
  "ByteOrder \<Rightarrow> (byte list \<Rightarrow> 'c list option) \<Rightarrow> ('c \<Rightarrow> errno + int list) \<Rightarrow> recv list
     \<Rightarrow> ((error + MessageBuffer) \<times> recv list) option" where
  "ReadMessage bo psm pur c =
     (case tee_ReadFull 4 c of
        None \<Rightarrow> None
      | Some (b1, o1, Some e, c1) \<Rightarrow> Some (Inl (ReadSenderErr e), c1)
      | Some (b1, o1, None, c1) \<Rightarrow>
     (case tee_ReadFull 4 c1 of
        None \<Rightarrow> None
      | Some (b2, o2, Some e, c2) \<Rightarrow> Some (Inl (ReadSizeOpErr e), c2)
      | Some (b2, o2, None, c2) \<Rightarrow>
     (let so = Uint32 bo b2;
          sz = (ucast (drop_bit 16 so) :: uint16);
          opc = (ucast (so AND 0xFFFF) :: uint16)
      in case tee_CopyN (int (unat sz) - 8) c2 of
        None \<Rightarrow> None
      | Some (b3, o3, Some e, c3) \<Rightarrow> Some (Inl (CopyDataErr e), c3)
      | Some (b3, o3, None, c3) \<Rightarrow>
     (case psm (o1 @ o2 @ o3) of
        None \<Rightarrow> Some (Inl ParseCmsgErr, c3)
      | Some cmsgs \<Rightarrow>
     (case collect_fds pur cmsgs [] of
        Inl e \<Rightarrow> Some (Inl e, c3)
      | Inr fdl \<Rightarrow>
          Some (Inr \<lparr>sender = Uint32 bo b1, op = opc, size_mb = sz,
                      data = \<lparr>r_s = b3, r_i = 0\<rparr>, fds = fdl, fdindex = 0\<rparr>, c3))))))"

subsection \<open>Fixed\<close>

text \<open>
  \<^verbatim>\<open>type Fixed int32\<close>. Go's \<^verbatim>\<open>int\<close> is the 64-bit \<open>goint\<close>; the conversion to
  \<^verbatim>\<open>Fixed\<close> keeps the low 32 bits, the conversion back extends the sign.
\<close>

definition FixedInt :: "goint \<Rightarrow> int32" where
  "FixedInt v = ucast (push_bit 8 v)"

definition Fixed_Int :: "int32 \<Rightarrow> goint" where
  "Fixed_Int f = scast (signed_drop_bit 8 f)"

definition Fixed_Frac :: "int32 \<Rightarrow> goint" where
  "Fixed_Frac f = ucast (f AND 0xFF)"

text \<open>
  A \<^verbatim>\<open>float64\<close> is modelled by the real number it denotes. \<^verbatim>\<open>f.Float()\<close> adds an integer
  below \<open>2 ^ 23\<close> in absolute value and a multiple of \<open>1 / 256\<close> below 1: every step is
  exact in \<^verbatim>\<open>float64\<close>, so the real number computed here is the one the code returns.
\<close>

definition Fixed_Float :: "int32 \<Rightarrow> real" where
  "Fixed_Float f =
     real_of_int (sint (Fixed_Int f)) + \<bar>real_of_int (sint (Fixed_Frac f)) * (1 / 2 ^ 8)\<bar>"

text \<open>
  \<^verbatim>\<open>math.Modf\<close> splits a finite float into its integer part, truncated towards zero, and
  the remainder; both are exact. The conversion \<^verbatim>\<open>int(x)\<close> of a float truncates towards
  zero; \<open>float_to_int\<close> is that conversion for \<open>- 2 ^ 63 \<le> x < 2 ^ 63\<close> (outside, Go
  leaves the result to the implementation). Scaling the remainder by \<^verbatim>\<open>math.Exp2(8)\<close> is
  exact as well.
\<close>

definition trunc :: "real \<Rightarrow> int" where
  "trunc x = (if x < 0 then - \<lfloor>- x\<rfloor> else \<lfloor>x\<rfloor>)"

definition Modf :: "real \<Rightarrow> real \<times> real" where
  "Modf v = (real_of_int (trunc v), v - real_of_int (trunc v))"

definition float_to_int :: "real \<Rightarrow> goint" where
  "float_to_int x = word_of_int (trunc x)"

definition FixedFloat :: "real \<Rightarrow> int32" where
  "FixedFloat v =
     (case Modf v of (i, fr) \<Rightarrow>
        ucast (push_bit 8 (float_to_int i) OR float_to_int (\<bar>fr\<bar> * 2 ^ 8)))"

text \<open>
  The specification's reading of \<^verbatim>\<open>from_float\<close>, for comparison with \<open>FixedFloat\<close>: the
  low bits are \<open>round (\<bar>f\<bar> * 256)\<close>.
\<close>

definition FixedFloat_spec :: "real \<Rightarrow> int32" where
  "FixedFloat_spec v =
     (case Modf v of (i, fr) \<Rightarrow>
        ucast (push_bit 8 (float_to_int i) OR (word_of_int (round (\<bar>fr\<bar> * 2 ^ 8)) :: goint)))"


section \<open>Properties of Decode\<close>

subsection \<open>Reading a prefix of the remaining payload\<close>

lemmas decode_defs =
  decode_string_def decode_bytes_def decode_scalar_def decode_file_def
  read32_def ReadFull_def CopyN_def Let_def

lemma drop_past_prefix:
  "drop i xs = hdr @ body \<Longrightarrow> drop (i + length hdr) xs = body"
proof -
  assume a: "drop i xs = hdr @ body"
  have "drop (i + length hdr) xs = drop (length hdr) (drop i xs)"
    by (simp add: add.commute)
  with a show ?thesis by simp
qed

lemma ReadFull_prefix:
  assumes "drop (r_i r) (r_s r) = hdr @ body" and "length hdr = k" and "0 < k"
  shows "ReadFull r k = (hdr, None, r\<lparr>r_i := r_i r + k\<rparr>)"
  using assms by (auto simp add: ReadFull_def Let_def)

lemma read32_prefix:
  assumes "drop (r_i r) (r_s r) = hdr @ body" and "length hdr = 4"
  shows "read32 bo r = (Inr (Uint32 bo hdr), r\<lparr>r_i := r_i r + 4\<rparr>)"
  using ReadFull_prefix [OF assms(1) assms(2)] by (simp add: read32_def)

lemma unat_len_pad:
  fixes L :: uint32
  assumes "unat L + unat L mod 4 < 2 ^ 32"
  shows "unat (L + L mod 4) = unat L + unat L mod 4"
proof -
  have "unat (L mod 4) = unat L mod 4"
    by (simp add: unat_mod)
  with assms show ?thesis
    by (simp add: unat_add_lem [THEN iffD1])
qed

lemma unat_len_pred:
  fixes L :: uint32
  assumes "1 \<le> unat L"
  shows "unat (L - 1) = unat L - 1"
  using assms by (metis unat_minus_one unat_eq_zero not_one_le_zero)

subsection \<open>Strings\<close>

text \<open>
  C1, as the code has it. Let the remaining payload be a 4-byte length prefix \<open>hdr\<close>,
  read in the host byte order as \<open>L\<close>, followed by \<open>body\<close>, with \<open>1 \<le> L\<close> and
  \<open>L + L mod 4\<close> below \<open>2 ^ 32\<close>. If \<open>body\<close> has at least \<open>L + L mod 4\<close> bytes, the
  decoder consumes exactly \<open>4 + L + L mod 4\<close> bytes, fails with the malformed-string
  error when the byte at offset \<open>L - 1\<close> of \<open>body\<close> is not null, and otherwise
  succeeds with exactly the first \<open>L - 1\<close> bytes of \<open>body\<close>. If \<open>body\<close> is shorter, the
  decoder consumes all of it and fails with \<^verbatim>\<open>io.EOF\<close>, leaving the variable unchanged.
\<close>

theorem decode_string_spec:
  assumes rem: "drop (r_i (data buf)) (r_s (data buf)) = hdr @ body"
    and hdr: "length hdr = 4"
    and len: "Uint32 bo hdr = L"
    and pos: "1 \<le> unat L"
    and nowrap: "unat L + unat L mod 4 < 2 ^ 32"
  shows "Decode bo buf (VString old) =
    (if length body < unat L + unat L mod 4 then
       (Failure EOF,
        buf\<lparr>data := (data buf)\<lparr>r_i := r_i (data buf) + 4 + length body\<rparr>\<rparr>, VString old)
     else if body ! (unat L - 1) \<noteq> 0 then
       (Failure NotNullTerminated,
        buf\<lparr>data := (data buf)\<lparr>r_i := r_i (data buf) + 4 + (unat L + unat L mod 4)\<rparr>\<rparr>,
        VString old)
     else
       (Success,
        buf\<lparr>data := (data buf)\<lparr>r_i := r_i (data buf) + 4 + (unat L + unat L mod 4)\<rparr>\<rparr>,
        VString (take (unat L - 1) body)))"
proof -
  let ?n = "unat L + unat L mod 4"
  have rd: "read32 bo (data buf) = (Inr L, (data buf)\<lparr>r_i := r_i (data buf) + 4\<rparr>)"
    using read32_prefix [OF rem hdr] len by simp
  have body: "drop (r_i (data buf) + 4) (r_s (data buf)) = body"
    using drop_past_prefix [OF rem] hdr by simp
  have lb: "length (r_s (data buf)) - (r_i (data buf) + 4) = length body"
    using body by (metis length_drop)
  have n: "unat (L + L mod 4) = ?n" by (rule unat_len_pad [OF nowrap])
  have p: "unat (L - 1) = unat L - 1" by (rule unat_len_pred [OF pos])
  have lt: "unat L - 1 < ?n" using pos by simp
  show ?thesis
  proof (cases "length body < ?n")
    case True
    then show ?thesis
      by (simp add: decode_string_def rd CopyN_def body lb n Let_def min_def)
  next
    case False
    then have "min ?n (length body) = ?n" by simp
    with False lt show ?thesis
      by (simp add: decode_string_def rd CopyN_def body lb n p Let_def add.assoc)
  qed
qed

text \<open>
  The theorem at the payload \<open>05 00 00 00 'a' 'b' 'c' 'd' 00 07\<close> on a little-endian
  host: ten bytes are consumed and the string is \<open>abcd\<close>.
\<close>

theorem decode_string_spec_witness:
  "length [5, 0, 0, 0 :: byte] = 4 \<and>
   Uint32 LittleEndian [5, 0, 0, 0] = 5 \<and>
   Decode LittleEndian
     \<lparr>sender = 1, op = 0, size_mb = 18,
      data = \<lparr>r_s = [5, 0, 0, 0, 97, 98, 99, 100, 0, 7], r_i = 0\<rparr>, fds = [], fdindex = 0\<rparr>
     (VString []) =
   (Success,
    \<lparr>sender = 1, op = 0, size_mb = 18,
     data = \<lparr>r_s = [5, 0, 0, 0, 97, 98, 99, 100, 0, 7], r_i = 10\<rparr>, fds = [], fdindex = 0\<rparr>,
    VString [97, 98, 99, 100])"
  using decode_string_spec
    [where buf = "\<lparr>sender = 1, op = 0, size_mb = 18,
        data = \<lparr>r_s = [5, 0, 0, 0, 97, 98, 99, 100, 0, 7], r_i = 0\<rparr>, fds = [], fdindex = 0\<rparr>"
      and hdr = "[5, 0, 0, 0]" and body = "[97, 98, 99, 100, 0, 7]"
      and bo = LittleEndian and L = 5 and old = "[]"]
  by simp

text \<open>
  C1 as stated fails where fewer than \<open>L + pad\<close> bytes follow the prefix. The payload
  \<open>05 00 00 00 'a'\<close> has at least 4 bytes and the prefix 5, so \<open>L + pad = 6\<close>; the
  decoder consumes the one byte that is left (the cursor ends at 5, not at 10) and fails
  with \<^verbatim>\<open>io.EOF\<close>.
\<close>

theorem decode_string_short_payload:
  "Uint32 LittleEndian [5, 0, 0, 0] = 5 \<and>
   Decode LittleEndian
     \<lparr>sender = 1, op = 0, size_mb = 13,
      data = \<lparr>r_s = [5, 0, 0, 0, 97], r_i = 0\<rparr>, fds = [], fdindex = 0\<rparr>
     (VString []) =
   (Failure EOF,
    \<lparr>sender = 1, op = 0, size_mb = 13,
     data = \<lparr>r_s = [5, 0, 0, 0, 97], r_i = 5\<rparr>, fds = [], fdindex = 0\<rparr>,
    VString []) \<and>
   r_i (data (fst (snd (Decode LittleEndian
     \<lparr>sender = 1, op = 0, size_mb = 13,
      data = \<lparr>r_s = [5, 0, 0, 0, 97], r_i = 0\<rparr>, fds = [], fdindex = 0\<rparr>
     (VString []))))) \<noteq> 4 + (unat (5 :: uint32) + unat (5 :: uint32) mod 4)"
  by (simp add: decode_defs)

text \<open>
  C5: the length prefix 0. The payload \<open>00 00 00 00\<close> reads as \<open>L = 0\<close> in either byte
  order; \<^verbatim>\<open>io.CopyN\<close> copies 0 bytes, and \<^verbatim>\<open>str.String()[length-1]\<close> indexes the empty
  string at \<open>2 ^ 32 - 1\<close>: the call panics instead of returning an error.
\<close>

theorem decode_string_zero_length_panics:
  "Decode bo
     \<lparr>sender = 1, op = 0, size_mb = 12,
      data = \<lparr>r_s = [0, 0, 0, 0], r_i = 0\<rparr>, fds = [], fdindex = 0\<rparr>
     (VString []) =
   (Panics IndexOutOfRange,
    \<lparr>sender = 1, op = 0, size_mb = 12,
     data = \<lparr>r_s = [0, 0, 0, 0], r_i = 4\<rparr>, fds = [], fdindex = 0\<rparr>,
    VString [])"
  by (cases bo) (simp_all add: decode_defs)

subsection \<open>Padding\<close>

text \<open>
  C2: the padding is \<open>L mod 4\<close>, not the distance to the next multiple of 4. With the
  prefix 1 a string (here the empty string, its terminator and one more byte) takes
  \<open>4 + 1 + 1 = 6\<close> bytes of the payload, and so does a byte array decoded into a slice of
  length 2; the padded size would be 8.
\<close>

theorem decode_padding_not_aligned:
  "Decode LittleEndian
     \<lparr>sender = 1, op = 0, size_mb = 16,
      data = \<lparr>r_s = [1, 0, 0, 0, 0, 0, 0, 0], r_i = 0\<rparr>, fds = [], fdindex = 0\<rparr>
     (VString []) =
   (Success,
    \<lparr>sender = 1, op = 0, size_mb = 16,
     data = \<lparr>r_s = [1, 0, 0, 0, 0, 0, 0, 0], r_i = 6\<rparr>, fds = [], fdindex = 0\<rparr>,
    VString []) \<and>
   Decode LittleEndian
     \<lparr>sender = 1, op = 0, size_mb = 16,
      data = \<lparr>r_s = [1, 0, 0, 0, 9, 0, 0, 0], r_i = 0\<rparr>, fds = [], fdindex = 0\<rparr>
     (VBytes [0, 0] []) =
   (Success,
    \<lparr>sender = 1, op = 0, size_mb = 16,
     data = \<lparr>r_s = [1, 0, 0, 0, 9, 0, 0, 0], r_i = 6\<rparr>, fds = [], fdindex = 0\<rparr>,
    VBytes [9] [0])"
  by (simp add: decode_defs)

subsection \<open>Sequences\<close>

text \<open>
  C3: the type switch has no case for a slice other than \<^verbatim>\<open>[]byte\<close>, nor for
  \<^verbatim>\<open>NewID\<close>. Decoding a sequence, whatever its element type, its current elements and
  the payload (a count of 0 included), reaches \<^verbatim>\<open>default\<close> and panics without reading a
  byte.
\<close>

theorem decode_sequence_panics:
  "Decode bo buf (VSlice t xs) = (Panics UnexpectedType, buf, VSlice t xs) \<and>
   Decode bo buf (VNewID name version) = (Panics UnexpectedType, buf, VNewID name version) \<and>
   Decode LittleEndian
     \<lparr>sender = 1, op = 0, size_mb = 12,
      data = \<lparr>r_s = [0, 0, 0, 0], r_i = 0\<rparr>, fds = [], fdindex = 0\<rparr>
     (VSlice TInt32 []) =
   (Panics UnexpectedType,
    \<lparr>sender = 1, op = 0, size_mb = 12,
     data = \<lparr>r_s = [0, 0, 0, 0], r_i = 0\<rparr>, fds = [], fdindex = 0\<rparr>,
    VSlice TInt32 [])"
  by simp

subsection \<open>Byte arrays\<close>

text \<open>
  C4: the destination slice decides what happens. Into an empty slice the call panics in
  \<^verbatim>\<open>slices.Grow\<close>, which is handed the negative count \<open>len - (L + pad)\<close>; into a slice
  of length 8 a field with prefix 4 consumes \<open>4 + 8\<close> bytes, since \<^verbatim>\<open>io.ReadFull\<close> fills
  the whole slice.
\<close>

theorem decode_bytes_depends_on_destination:
  "Decode LittleEndian
     \<lparr>sender = 1, op = 0, size_mb = 16,
      data = \<lparr>r_s = [4, 0, 0, 0, 1, 2, 3, 4], r_i = 0\<rparr>, fds = [], fdindex = 0\<rparr>
     (VBytes [] []) =
   (Panics GrowNegative,
    \<lparr>sender = 1, op = 0, size_mb = 16,
     data = \<lparr>r_s = [4, 0, 0, 0, 1, 2, 3, 4], r_i = 4\<rparr>, fds = [], fdindex = 0\<rparr>,
    VBytes [] []) \<and>
   Decode LittleEndian
     \<lparr>sender = 1, op = 0, size_mb = 20,
      data = \<lparr>r_s = [4, 0, 0, 0, 1, 2, 3, 4, 5, 6, 7, 8], r_i = 0\<rparr>, fds = [], fdindex = 0\<rparr>
     (VBytes [0, 0, 0, 0, 0, 0, 0, 0] []) =
   (Success,
    \<lparr>sender = 1, op = 0, size_mb = 20,
     data = \<lparr>r_s = [4, 0, 0, 0, 1, 2, 3, 4, 5, 6, 7, 8], r_i = 12\<rparr>, fds = [], fdindex = 0\<rparr>,
    VBytes [1, 2, 3, 4] [5, 6, 7, 8])"
  by (simp add: decode_defs)


subsection \<open>File descriptors\<close>

text \<open>
  C7: descriptors are handed out in list order. For a buffer whose index is not negative,
  a file-descriptor decode fails with the descriptor-underflow error exactly when the
  index has reached the length of the list; otherwise it succeeds with the file made from
  the entry at the index and moves the index on by one. In particular, on a fresh buffer
  with the descriptors \<open>[d0, d1]\<close> (valid descriptors, so not negative) the first call
  returns the file on \<open>d0\<close>, the second the file on \<open>d1\<close>, and the third fails with
  descriptor underflow, leaving buffer and variable as they were.
\<close>

theorem decode_file_order:
  "0 \<le> fdindex buf \<Longrightarrow>
   (fst (Decode bo buf (VFile f)) = Failure NoMoreFds \<longleftrightarrow>
      int (length (fds buf)) \<le> fdindex buf) \<and>
   (fdindex buf < int (length (fds buf)) \<longrightarrow>
      Decode bo buf (VFile f) =
        (Success, buf\<lparr>fdindex := fdindex buf + 1\<rparr>,
         VFile (NewFile (fds buf ! nat (fdindex buf))))) \<and>
   (fds buf = [d0, d1] \<and> fdindex buf = 0 \<and> 0 \<le> d0 \<and> 0 \<le> d1 \<longrightarrow>
      (case Decode bo buf (VFile f) of (r1, b1, v1) \<Rightarrow>
       case Decode bo b1 (VFile g) of (r2, b2, v2) \<Rightarrow>
       case Decode bo b2 (VFile h) of (r3, b3, v3) \<Rightarrow>
         r1 = Success \<and> v1 = VFile (Some d0) \<and>
         r2 = Success \<and> v2 = VFile (Some d1) \<and>
         r3 = Failure NoMoreFds \<and> v3 = VFile h \<and> b3 = b2))"
  by (auto simp add: decode_file_def NewFile_def)

text \<open>The theorem on a fresh buffer with the descriptors 5 and 9.\<close>

theorem decode_file_order_witness:
  "(case Decode LittleEndian
      \<lparr>sender = 1, op = 2, size_mb = 8, data = \<lparr>r_s = [], r_i = 0\<rparr>,
       fds = [5, 9], fdindex = 0\<rparr> (VFile None) of (r1, b1, v1) \<Rightarrow>
    case Decode LittleEndian b1 (VFile None) of (r2, b2, v2) \<Rightarrow>
    case Decode LittleEndian b2 (VFile None) of (r3, b3, v3) \<Rightarrow>
      r1 = Success \<and> v1 = VFile (Some 5) \<and>
      r2 = Success \<and> v2 = VFile (Some 9) \<and>
      r3 = Failure NoMoreFds \<and> v3 = VFile None \<and> b3 = b2 \<and> fdindex b3 = 2)"
  using decode_file_order
    [where buf = "\<lparr>sender = 1, op = 2, size_mb = 8, data = \<lparr>r_s = [], r_i = 0\<rparr>,
        fds = [5, 9], fdindex = 0\<rparr>"
      and bo = LittleEndian and f = None and g = None and h = None and ?d0.0 = 5 and ?d1.0 = 9]
  by (simp add: decode_file_def NewFile_def)

text \<open>
  C10: a successful file-descriptor decode returns the buffer with the index moved on by
  one and nothing else changed (payload bytes and cursor, sender, opcode, size and the
  descriptor list are the same); a decode that fails with descriptor underflow returns the
  buffer as it was, index included.
\<close>

theorem decode_file_frame:
  "(fst (Decode bo buf (VFile f)) = Success \<longrightarrow>
      fst (snd (Decode bo buf (VFile f))) = buf\<lparr>fdindex := fdindex buf + 1\<rparr> \<and>
      data (fst (snd (Decode bo buf (VFile f)))) = data buf \<and>
      sender (fst (snd (Decode bo buf (VFile f)))) = sender buf \<and>
      op (fst (snd (Decode bo buf (VFile f)))) = op buf \<and>
      size_mb (fst (snd (Decode bo buf (VFile f)))) = size_mb buf \<and>
      fds (fst (snd (Decode bo buf (VFile f)))) = fds buf \<and>
      fdindex (fst (snd (Decode bo buf (VFile f)))) = fdindex buf + 1) \<and>
   (fst (Decode bo buf (VFile f)) = Failure NoMoreFds \<longrightarrow>
      fst (snd (Decode bo buf (VFile f))) = buf)"
  by (simp add: decode_file_def)

text \<open>
  The theorem on a buffer with one descriptor and a payload with its cursor at 2: the
  first decode succeeds and changes the index only, the next one underflows and changes
  nothing.
\<close>

theorem decode_file_frame_witness:
  "fst (Decode LittleEndian
          \<lparr>sender = 1, op = 2, size_mb = 12, data = \<lparr>r_s = [1, 2, 3, 4], r_i = 2\<rparr>,
           fds = [7], fdindex = 0\<rparr> (VFile None)) = Success \<and>
   fst (snd (Decode LittleEndian
          \<lparr>sender = 1, op = 2, size_mb = 12, data = \<lparr>r_s = [1, 2, 3, 4], r_i = 2\<rparr>,
           fds = [7], fdindex = 0\<rparr> (VFile None))) =
     \<lparr>sender = 1, op = 2, size_mb = 12, data = \<lparr>r_s = [1, 2, 3, 4], r_i = 2\<rparr>,
      fds = [7], fdindex = 1\<rparr> \<and>
   fst (Decode LittleEndian
          \<lparr>sender = 1, op = 2, size_mb = 12, data = \<lparr>r_s = [1, 2, 3, 4], r_i = 2\<rparr>,
           fds = [7], fdindex = 1\<rparr> (VFile None)) = Failure NoMoreFds \<and>
   fst (snd (Decode LittleEndian
          \<lparr>sender = 1, op = 2, size_mb = 12, data = \<lparr>r_s = [1, 2, 3, 4], r_i = 2\<rparr>,
           fds = [7], fdindex = 1\<rparr> (VFile None))) =
     \<lparr>sender = 1, op = 2, size_mb = 12, data = \<lparr>r_s = [1, 2, 3, 4], r_i = 2\<rparr>,
      fds = [7], fdindex = 1\<rparr>"
  using decode_file_frame
      [of LittleEndian
        "\<lparr>sender = 1, op = 2, size_mb = 12, data = \<lparr>r_s = [1, 2, 3, 4], r_i = 2\<rparr>,
          fds = [7], fdindex = 0\<rparr>" None]
    decode_file_frame
      [of LittleEndian
        "\<lparr>sender = 1, op = 2, size_mb = 12, data = \<lparr>r_s = [1, 2, 3, 4], r_i = 2\<rparr>,
          fds = [7], fdindex = 1\<rparr>" None]
  by (simp add: decode_file_def)

section \<open>Properties of ReadMessage\<close>

lemma tee_ReadFull_length:
  "tee_ReadFull k c = Some (bs, ob, None, c') \<Longrightarrow> length bs = k"
proof (induction k c arbitrary: bs ob c' rule: tee_ReadFull.induct)
  case (1 c)
  then show ?case by (simp add: tee_ReadFull.simps)
next
  case (2 k c)
  show ?case
  proof (cases c)
    case Nil
    with "2.prems" show ?thesis by (simp add: tee_ReadFull.simps)
  next
    case (Cons ev c0)
    show ?thesis
    proof (cases ev)
      case RecvErr
      with Cons "2.prems" show ?thesis by (simp add: tee_ReadFull.simps)
    next
      case (Recv b ob0)
      define c1 where "c1 = (if length b \<le> Suc k then c0 else Recv (drop (Suc k) b) [] # c0)"
      have rd: "tee_Read (Suc k) c = Some (take (Suc k) b, ob0, None, c1)"
        by (simp add: Cons Recv c1_def)
      let ?rest = "tee_ReadFull (Suc k - length (take (Suc k) b)) c1"
      have unf: "(case ?rest of None \<Rightarrow> None
                  | Some (bs', ob', e, c'') \<Rightarrow> Some (take (Suc k) b @ bs', ob0 @ ob', e, c''))
                 = Some (bs, ob, None, c')"
        using "2.prems" by (simp only: tee_ReadFull.simps rd option.case prod.case)
      then obtain bs' ob' where
        rest: "?rest = Some (bs', ob', None, c')"
        and bs: "bs = take (Suc k) b @ bs'"
        by (cases ?rest) auto
      have "length bs' = Suc k - length (take (Suc k) b)"
        by (rule "2.IH" [OF rd refl refl refl refl rest])
      with bs show ?thesis by simp
    qed
  qed
qed

lemma tee_CopyN_length:
  "tee_CopyN n c = Some (bs, ob, None, c') \<Longrightarrow> length bs = nat n"
  by (auto simp add: tee_CopyN_def tee_ReadFull_length split: if_splits)

lemma tee_ReadFull_4:
  "tee_ReadFull 4 (Recv (b0 # b1 # b2 # b3 # b4 # bs) ob # c) =
     Some ([b0, b1, b2, b3], ob, None, Recv (b4 # bs) [] # c)"
  "tee_ReadFull 4 (Recv [b0, b1, b2, b3] ob # c) = Some ([b0, b1, b2, b3], ob, None, c)"
  by (simp_all add: eval_nat_numeral tee_ReadFull.simps)

text \<open>
  C6: a header that declares a size below 8. On a little-endian host the eight bytes
  \<open>01 00 00 00 03 00 04 00\<close> are the sender 1 and the word \<open>(4 << 16) | 3\<close>: size 4,
  opcode 3. \<^verbatim>\<open>io.CopyN\<close> is called with the count \<open>4 - 8\<close>, reads nothing and reports no
  error, and with no ancillary data (where \<^verbatim>\<open>ParseSocketControlMessage\<close> returns no
  messages) \<open>ReadMessage\<close> returns a message buffer whose size is 4 and whose payload
  is empty.
\<close>

theorem ReadMessage_accepts_size_below_header:
  "psm [] = Some [] \<Longrightarrow>
   ReadMessage LittleEndian psm pur [Recv [1, 0, 0, 0, 3, 0, 4, 0] []] =
     Some (Inr \<lparr>sender = 1, op = 3, size_mb = 4, data = \<lparr>r_s = [], r_i = 0\<rparr>,
                 fds = [], fdindex = 0\<rparr>, [])"
  by (simp add: ReadMessage_def tee_CopyN_def tee_ReadFull_4)

text \<open>The theorem with parsers that find no control message and no descriptor.\<close>

theorem ReadMessage_accepts_size_below_header_witness:
  "ReadMessage LittleEndian (\<lambda>b. Some ([] :: unit list)) (\<lambda>m. Inr [])
     [Recv [1, 0, 0, 0, 3, 0, 4, 0] []] =
     Some (Inr \<lparr>sender = 1, op = 3, size_mb = 4, data = \<lparr>r_s = [], r_i = 0\<rparr>,
                 fds = [], fdindex = 0\<rparr>, [])"
  using ReadMessage_accepts_size_below_header
    [where psm = "\<lambda>b. Some ([] :: unit list)" and pur = "\<lambda>m. Inr []"]
  by simp

text \<open>
  What does hold of every message buffer \<open>ReadMessage\<close> returns: the payload has
  exactly \<open>size - 8\<close> bytes, or none when the size is below 8, its cursor is at 0 and no
  descriptor is consumed. A receive that fails before the payload is complete is an
  error; a connection that delivers nothing more makes the call wait, never succeed with
  a shorter payload.
\<close>

theorem ReadMessage_payload_length:
  assumes "ReadMessage bo psm pur c = Some (Inr m, c')"
  shows "length (r_s (data m)) = nat (int (unat (size_mb m)) - 8) \<and>
         r_i (data m) = 0 \<and> fdindex m = 0"
proof -
  from assms obtain b1 o1 c1 where
    r1: "tee_ReadFull 4 c = Some (b1, o1, None, c1)"
    by (auto simp add: ReadMessage_def split: option.splits)
  from assms r1 obtain b2 o2 c2 where
    r2: "tee_ReadFull 4 c1 = Some (b2, o2, None, c2)"
    by (auto simp add: ReadMessage_def split: option.splits)
  define sz where "sz = (ucast (drop_bit 16 (Uint32 bo b2)) :: uint16)"
  from assms r1 r2 obtain b3 o3 c3 where
    r3: "tee_CopyN (int (unat sz) - 8) c2 = Some (b3, o3, None, c3)"
    by (auto simp add: ReadMessage_def sz_def Let_def split: option.splits)
  from assms r1 r2 r3
  have "size_mb m = sz \<and> data m = \<lparr>r_s = b3, r_i = 0\<rparr> \<and> fdindex m = 0"
    by (auto simp add: ReadMessage_def sz_def [symmetric] Let_def
        split: option.splits sum.splits)
  with tee_CopyN_length [OF r3] show ?thesis by simp
qed

text \<open>The theorem on a message of size 12 that arrives in two receives.\<close>

theorem ReadMessage_payload_length_witness:
  "ReadMessage LittleEndian (\<lambda>b. Some ([] :: unit list)) (\<lambda>m. Inr [])
     [Recv [1, 0, 0, 0, 3, 0, 12, 0] [], Recv [9, 8, 7, 6] []] =
     Some (Inr \<lparr>sender = 1, op = 3, size_mb = 12, data = \<lparr>r_s = [9, 8, 7, 6], r_i = 0\<rparr>,
                 fds = [], fdindex = 0\<rparr>, []) \<and>
   length [9, 8, 7, 6 :: byte] = nat (int (unat (12 :: uint16)) - 8)"
  using ReadMessage_payload_length
    [where bo = LittleEndian and psm = "\<lambda>b. Some ([] :: unit list)" and pur = "\<lambda>m. Inr []"
      and c = "[Recv [1, 0, 0, 0, 3, 0, 12, 0] [], Recv [9, 8, 7, 6] []]"
      and m = "\<lparr>sender = 1, op = 3, size_mb = 12, data = \<lparr>r_s = [9, 8, 7, 6], r_i = 0\<rparr>,
                 fds = [], fdindex = 0\<rparr>" and c' = "[]"]
  by (simp add: ReadMessage_def tee_CopyN_def tee_ReadFull_4)


section \<open>Properties of Fixed\<close>

subsection \<open>Words as integers\<close>

lemma and_255: "(f :: int32) AND 0xFF = take_bit 8 f"
  by (simp add: take_bit_eq_mask mask_eq_exp_minus_1)

lemma ucast_wi_64_32: "(ucast (word_of_int m :: goint) :: int32) = word_of_int m"
  by (simp add: ucast_down_wi is_down)

lemma sint_wi_32:
  assumes "- (2 ^ 31) \<le> m" and "m < 2 ^ 31"
  shows "sint (word_of_int m :: int32) = m"
  using assms by (simp add: sint_sbintrunc' signed_take_bit_int_eq_self)

lemma push_bit_wi_64: "push_bit 8 (word_of_int k :: goint) = word_of_int (k * 2 ^ 8)"
  by (simp add: push_bit_eq_mult)

lemma FixedInt_wi: "FixedInt (word_of_int k) = word_of_int (k * 2 ^ 8)"
  unfolding FixedInt_def push_bit_wi_64 by (rule ucast_wi_64_32)

lemma Fixed_Int_wi:
  assumes "- (2 ^ 23) \<le> k" and "k < 2 ^ 23" and "0 \<le> j" and "j < 2 ^ 8"
  shows "Fixed_Int (word_of_int (k * 2 ^ 8 + j)) = word_of_int k"
proof -
  define m where "m = k * 2 ^ 8 + j"
  have "- (2 ^ 31) \<le> m" "m < 2 ^ 31" using assms by (simp_all add: m_def)
  then have "sint (word_of_int m :: int32) = m" by (rule sint_wi_32)
  moreover have "m div 2 ^ 8 = k" using assms by (simp add: m_def)
  ultimately have "sint (signed_drop_bit 8 (word_of_int m :: int32)) = k"
    by (simp add: sint_signed_drop_bit_eq drop_bit_eq_div)
  then show ?thesis
    unfolding m_def [symmetric] by (simp add: Fixed_Int_def scast_eq)
qed

lemma Fixed_Frac_wi:
  assumes "0 \<le> j" and "j < 2 ^ 8"
  shows "Fixed_Frac (word_of_int (k * 2 ^ 8 + j)) = word_of_int j"
proof -
  define m where "m = k * 2 ^ 8 + j"
  have "take_bit 8 (word_of_int m :: int32) = word_of_int (take_bit 8 m)"
    by (simp add: take_bit_of_int)
  moreover have "take_bit 8 m = j"
    using assms by (simp add: take_bit_eq_mod m_def)
  ultimately have "take_bit 8 (word_of_int m :: int32) = word_of_int j" by simp
  moreover have "(ucast (word_of_int j :: int32) :: goint) = word_of_int j"
    using assms by (simp add: unsigned_of_int take_bit_int_eq_self)
  ultimately show ?thesis
    unfolding m_def [symmetric] by (simp add: Fixed_Frac_def and_255)
qed

lemma or_low_bits:
  fixes i j :: int
  assumes "0 \<le> j" and "j < 2 ^ 8"
  shows "i * 2 ^ 8 OR j = i * 2 ^ 8 + j"
proof -
  have j: "take_bit 8 j = j" using assms by (simp add: take_bit_int_eq_self)
  have "push_bit 8 i AND take_bit 8 j = 0"
    by (rule bit_eqI) (simp add: bit_simps)
  then have "push_bit 8 i + take_bit 8 j = push_bit 8 i OR take_bit 8 j"
    by (rule disjunctive_add_eq_or)
  then show ?thesis by (simp add: j push_bit_eq_mult)
qed

subsection \<open>FixedInt\<close>

text \<open>
  C8: for every \<^verbatim>\<open>int\<close> \<open>n\<close> that fits the 24-bit integer part,
  \<^verbatim>\<open>FixedInt(n).Int()\<close> is \<open>n\<close>, \<^verbatim>\<open>FixedInt(n).Frac()\<close> is 0 and
  \<^verbatim>\<open>FixedInt(n).Float()\<close> is \<open>n\<close>; so \<^verbatim>\<open>FixedInt(5).Float()\<close> is 5.
\<close>

theorem FixedInt_roundtrip:
  fixes n :: goint
  assumes lo: "- (2 ^ 23) \<le> sint n" and hi: "sint n < 2 ^ 23"
  shows "Fixed_Int (FixedInt n) = n \<and> Fixed_Frac (FixedInt n) = 0 \<and>
         Fixed_Float (FixedInt n) = real_of_int (sint n)"
proof -
  have n: "n = word_of_int (sint n)" by simp
  have fx: "FixedInt n = word_of_int (sint n * 2 ^ 8 + 0)"
    using FixedInt_wi [of "sint n"] by simp
  have i: "Fixed_Int (FixedInt n) = n"
    unfolding fx using Fixed_Int_wi [OF lo hi, of 0] by simp
  have f: "Fixed_Frac (FixedInt n) = 0"
    unfolding fx using Fixed_Frac_wi [of 0 "sint n"] by simp
  from i f show ?thesis by (simp add: Fixed_Float_def)
qed

text \<open>The theorem at 5, and at \<open>- 3\<close>.\<close>

theorem FixedInt_roundtrip_witness:
  "Fixed_Int (FixedInt 5) = 5 \<and> Fixed_Frac (FixedInt 5) = 0 \<and> Fixed_Float (FixedInt 5) = 5 \<and>
   Fixed_Int (FixedInt (- 3)) = - 3 \<and> Fixed_Frac (FixedInt (- 3)) = 0 \<and>
   Fixed_Float (FixedInt (- 3)) = - 3"
  using FixedInt_roundtrip [of 5] FixedInt_roundtrip [of "- 3"] by simp

subsection \<open>FixedFloat\<close>

lemma trunc_of_int: "trunc (real_of_int i) = i"
  by (simp add: trunc_def)

lemma trunc_nonneg: "0 \<le> x \<Longrightarrow> trunc x = \<lfloor>x\<rfloor>"
  by (simp add: trunc_def)

lemma frac_part_bound: "\<bar>v - real_of_int (trunc v)\<bar> < 1"
  unfolding trunc_def by (auto simp add: abs_less_iff) linarith+

lemma frac_bits_bound:
  "0 \<le> \<lfloor>\<bar>v - real_of_int (trunc v)\<bar> * 2 ^ 8\<rfloor> \<and>
   \<lfloor>\<bar>v - real_of_int (trunc v)\<bar> * 2 ^ 8\<rfloor> < 2 ^ 8"
proof -
  have "\<bar>v - real_of_int (trunc v)\<bar> * 2 ^ 8 < 2 ^ 8"
    using frac_part_bound [of v] by simp
  then have "\<lfloor>\<bar>v - real_of_int (trunc v)\<bar> * 2 ^ 8\<rfloor> < 2 ^ 8"
    by (simp add: floor_less_iff)
  then show ?thesis by simp
qed

lemma FixedFloat_wi:
  "FixedFloat v = word_of_int (trunc v * 2 ^ 8 + \<lfloor>\<bar>v - real_of_int (trunc v)\<bar> * 2 ^ 8\<rfloor>)"
proof -
  let ?j = "\<lfloor>\<bar>v - real_of_int (trunc v)\<bar> * 2 ^ 8\<rfloor>"
  have j: "trunc (\<bar>v - real_of_int (trunc v)\<bar> * 2 ^ 8) = ?j"
    by (rule trunc_nonneg) simp
  have "push_bit 8 (word_of_int (trunc v) :: goint) OR word_of_int ?j
      = word_of_int (trunc v * 2 ^ 8 OR ?j)"
    unfolding push_bit_wi_64 by (rule word_wi_log_defs)
  also have "trunc v * 2 ^ 8 OR ?j = trunc v * 2 ^ 8 + ?j"
    using frac_bits_bound [of v] by (intro or_low_bits) simp_all
  finally show ?thesis
    unfolding FixedFloat_def Modf_def float_to_int_def
    by (simp only: prod.case trunc_of_int j ucast_wi_64_32)
qed

text \<open>
  C9, as the code has it. For a finite float \<open>v\<close> whose integer part fits \<^verbatim>\<open>int\<close>,
  \<^verbatim>\<open>math.Modf\<close> gives the integer part \<open>i\<close>, truncated towards zero, and the remainder
  \<open>f\<close> with \<open>\<bar>f\<bar> < 1\<close>; \<^verbatim>\<open>FixedFloat(v)\<close> is \<open>i\<close> shifted left by 8 bits with
  \<open>\<lfloor>\<bar>f\<bar> * 256\<rfloor>\<close> in the low 8 bits, cut to 32 bits: the fraction bits are
  \<open>\<bar>f\<bar> * 256\<close> truncated, not rounded, and \<^verbatim>\<open>Frac()\<close> returns them.
\<close>

theorem FixedFloat_truncates:
  assumes m: "Modf v = (i, f)" and lo: "- (2 ^ 63) \<le> i" and hi: "i < 2 ^ 63"
  shows "i = real_of_int (trunc v) \<and> \<bar>f\<bar> < 1 \<and>
         0 \<le> \<lfloor>\<bar>f\<bar> * 2 ^ 8\<rfloor> \<and> \<lfloor>\<bar>f\<bar> * 2 ^ 8\<rfloor> < 2 ^ 8 \<and>
         FixedFloat v = word_of_int (trunc v * 2 ^ 8 + \<lfloor>\<bar>f\<bar> * 2 ^ 8\<rfloor>) \<and>
         Fixed_Frac (FixedFloat v) = word_of_int \<lfloor>\<bar>f\<bar> * 2 ^ 8\<rfloor>"
proof -
  from m have i: "i = real_of_int (trunc v)" and f: "f = v - real_of_int (trunc v)"
    by (simp_all add: Modf_def)
  have b: "0 \<le> \<lfloor>\<bar>f\<bar> * 2 ^ 8\<rfloor> \<and> \<lfloor>\<bar>f\<bar> * 2 ^ 8\<rfloor> < 2 ^ 8"
    unfolding f by (rule frac_bits_bound)
  have fx: "FixedFloat v = word_of_int (trunc v * 2 ^ 8 + \<lfloor>\<bar>f\<bar> * 2 ^ 8\<rfloor>)"
    unfolding f by (rule FixedFloat_wi)
  have fr: "Fixed_Frac (FixedFloat v) = word_of_int \<lfloor>\<bar>f\<bar> * 2 ^ 8\<rfloor>"
    unfolding fx using b by (intro Fixed_Frac_wi) simp_all
  from i f b fx fr frac_part_bound [of v] show ?thesis by simp
qed

text \<open>
  The theorem at \<open>v = 2 + 7 / 1024\<close>: the integer part is 2, the remainder times 256 is
  \<open>1.75\<close>, and the value is \<open>2 * 256 + 1\<close>.
\<close>

theorem FixedFloat_truncates_witness:
  "Modf (2 + 7 / 1024) = (2, 7 / 1024) \<and> FixedFloat (2 + 7 / 1024) = 513 \<and>
   Fixed_Frac (FixedFloat (2 + 7 / 1024)) = 1"
  using FixedFloat_truncates [of "2 + 7 / 1024" 2 "7 / 1024"]
  by (simp add: Modf_def trunc_def Fixed_Frac_def)

text \<open>
  C9 as stated fails at \<open>v = 7 / 1024\<close>, a \<^verbatim>\<open>float64\<close> with integer part 0 and remainder
  \<open>7 / 1024\<close>: \<open>\<bar>f\<bar> * 256 = 1.75\<close> rounds to 2, and the code produces 1.
\<close>

theorem FixedFloat_does_not_round:
  "Modf (7 / 1024) = (0, 7 / 1024) \<and> round (\<bar>7 / 1024 :: real\<bar> * 2 ^ 8) = 2 \<and>
   FixedFloat_spec (7 / 1024) = 2 \<and> FixedFloat (7 / 1024) = 1 \<and>
   Fixed_Frac (FixedFloat (7 / 1024)) = 1"
  unfolding FixedFloat_wi
  by (simp add: FixedFloat_spec_def Modf_def float_to_int_def trunc_def round_def
      Fixed_Frac_def)

end
